theory Spec2Isabelle
  imports Main "HOL-Library.Word"
begin

section \<open>The chunker: \<open>splitIntoChunks\<close> of \<open>pkg/rag/indexer.go\<close>\<close>

text \<open>
  Go strings are byte sequences; they are modelled as \<^typ>\<open>string\<close> (a list of 8-bit
  characters), so that \<open>len\<close> is \<^const>\<open>length\<close>. Go's \<open>int\<close> is modelled as
  \<^typ>\<open>int\<close>: the sizes added up by the chunker are bounded by twice the length of the
  text plus one, far below \<open>2^63\<close> for any text that fits in memory.
\<close>

abbreviation newline :: char where
  "newline \<equiv> CHR 0x0A"

text \<open>
  \<open>strings.Split(s, sep)\<close> of Go's standard library, for a separator of one byte: the
  substrings of \<open>s\<close> between the separators, so one more substring than there are
  separators. \<open>cur\<close> holds the bytes read since the last separator.
\<close>

fun split_from :: "char \<Rightarrow> string \<Rightarrow> string \<Rightarrow> string list" where
  "split_from sep cur [] = [cur]"
| "split_from sep cur (c # cs) =
     (if c = sep then cur # split_from sep [] cs else split_from sep (cur @ [c]) cs)"

definition strings_Split :: "string \<Rightarrow> char \<Rightarrow> string list" where
  "strings_Split s sep = split_from sep [] s"

text \<open>
  The three local variables of \<open>splitIntoChunks\<close> that its loop updates: the finished
  chunks, the \<open>strings.Builder\<close> holding the chunk under construction, and its size.
\<close>

record chunker =
  chunks :: "string list"
  currentChunk :: string
  currentSize :: int

text \<open>One iteration of the loop over the lines (lines 75 to 82 of the source).\<close>

definition add_line :: "int \<Rightarrow> chunker \<Rightarrow> string \<Rightarrow> chunker" where
  "add_line chunkSize st line =
     (let lineSize = int (length line) + 1;
          st1 = (if currentSize st + lineSize > chunkSize \<and> currentSize st > 0
                 then st\<lparr>chunks := chunks st @ [currentChunk st],
                         currentChunk := [], currentSize := 0\<rparr>
                 else st)
      in st1\<lparr>currentChunk := currentChunk st1 @ line @ [newline],
              currentSize := currentSize st1 + lineSize\<rparr>)"

definition chunker_init :: chunker where
  "chunker_init = \<lparr>chunks = [], currentChunk = [], currentSize = 0\<rparr>"

definition chunk_loop :: "int \<Rightarrow> chunker \<Rightarrow> string list \<Rightarrow> chunker" where
  "chunk_loop chunkSize st ls = foldl (add_line chunkSize) st ls"

definition finish :: "chunker \<Rightarrow> string list" where
  "finish st = (if length (currentChunk st) > 0 then chunks st @ [currentChunk st]
                else chunks st)"

definition splitIntoChunks :: "string \<Rightarrow> int \<Rightarrow> string list" where
  "splitIntoChunks text chunkSize =
     finish (chunk_loop chunkSize chunker_init (strings_Split text newline))"

subsection \<open>The lines of a chunk\<close>

text \<open>
  The lines a chunk holds are its newline-terminated segments (a last segment without a
  newline, which the chunker never produces, would count as a line too).
\<close>

fun lines_from :: "string \<Rightarrow> string \<Rightarrow> string list" where
  "lines_from cur [] = (if cur = [] then [] else [cur])"
| "lines_from cur (c # cs) =
     (if c = newline then cur # lines_from [] cs else lines_from (cur @ [c]) cs)"

definition chunk_lines :: "string \<Rightarrow> string list" where
  "chunk_lines c = lines_from [] c"

text \<open>The size the chunker accounts for a chunk: each line's length plus one.\<close>

definition accumulated_size :: "string \<Rightarrow> int" where
  "accumulated_size c = (\<Sum>l\<leftarrow>chunk_lines c. int (length l) + 1)"

subsection \<open>Invariants of the chunker's loop\<close>

text \<open>
  A buffer is terminated when it is empty or ends with a newline. The loop keeps the
  recorded size equal to the length of the buffer, the buffer terminated, and every
  finished chunk non-empty and ending with a newline.
\<close>

definition terminated :: "string \<Rightarrow> bool" where
  "terminated s \<longleftrightarrow> s = [] \<or> last s = newline"

definition chunker_inv :: "chunker \<Rightarrow> bool" where
  "chunker_inv st \<longleftrightarrow>
     currentSize st = int (length (currentChunk st)) \<and>
     terminated (currentChunk st) \<and>
     (\<forall>c\<in>set (chunks st). c \<noteq> [] \<and> last c = newline)"

text \<open>The lines held so far: those of the finished chunks, then those of the buffer.\<close>

definition lines_held :: "chunker \<Rightarrow> string list" where
  "lines_held st = concat (map chunk_lines (chunks st)) @ chunk_lines (currentChunk st)"

text \<open>
  The soft bound: a chunk is a single line, or it is no longer than the target size.
\<close>

definition soft_bounded :: "int \<Rightarrow> string \<Rightarrow> bool" where
  "soft_bounded n c \<longleftrightarrow> length (chunk_lines c) = 1 \<or> int (length c) \<le> n"

definition bound_inv :: "int \<Rightarrow> chunker \<Rightarrow> bool" where
  "bound_inv n st \<longleftrightarrow>
     (\<forall>c\<in>set (chunks st). soft_bounded n c) \<and>
     (currentChunk st = [] \<or> soft_bounded n (currentChunk st))"

text \<open>A line sits alone in the buffer, or alone in a finished chunk.\<close>

definition alone :: "chunker \<Rightarrow> string \<Rightarrow> bool" where
  "alone st l \<longleftrightarrow> currentChunk st = l @ [newline] \<or> l @ [newline] \<in> set (chunks st)"

section \<open>The content hasher: \<open>generateID\<close>\<close>

text \<open>
  \<open>hex.EncodeToString\<close> of Go's standard library: two digits of the table
  \<open>0123456789abcdef\<close> for each byte, the high four bits first.
\<close>

definition hextable :: string where
  "hextable = ''0123456789abcdef''"

definition hex_byte :: "char \<Rightarrow> string" where
  "hex_byte v = [hextable ! ((of_char v :: nat) div 16), hextable ! ((of_char v :: nat) mod 16)]"

definition hex_EncodeToString :: "string \<Rightarrow> string" where
  "hex_EncodeToString src = concat (map hex_byte src)"

text \<open>
  \<open>generateID\<close> writes the bytes of \<open>filePath + content\<close> into a fresh SHA-256 hash and
  encodes the sum. The package \<open>crypto/sha256\<close> is not part of the repository: the
  function from the bytes written to the sum is the parameter \<open>sha256_Sum\<close>, and
  \<open>sha256_Size\<close> is the length in bytes of every sum.
\<close>

definition sha256_Size :: nat where
  "sha256_Size = 32"

definition generateID :: "(string \<Rightarrow> string) \<Rightarrow> string \<Rightarrow> string \<Rightarrow> string" where
  "generateID sha256_Sum filePath content = hex_EncodeToString (sha256_Sum (filePath @ content))"

text \<open>Two different inputs of the digest with the same sum.\<close>

definition collision :: "(string \<Rightarrow> string) \<Rightarrow> string \<Rightarrow> string \<Rightarrow> bool" where
  "collision sha256_Sum x y \<longleftrightarrow> x \<noteq> y \<and> sha256_Sum x = sha256_Sum y"

text \<open>A stand-in digest for concrete runs: the first 32 bytes of the input, zero-padded.\<close>

definition toy_Sum :: "string \<Rightarrow> string" where
  "toy_Sum s = take 32 (s @ replicate 32 (CHR 0x00))"

section \<open>The file filter: \<open>isCodeFile\<close>\<close>

text \<open>
  \<open>filepath.Ext\<close> of Go's standard library scans the path from its end: it stops with
  the empty string at a path separator (\<open>/\<close>, as on Unix), and returns the suffix that
  starts at the first dot it meets. \<open>Ext_scan path i\<close> has the bytes before position
  \<open>i\<close> still to look at.
\<close>

definition IsPathSeparator :: "char \<Rightarrow> bool" where
  "IsPathSeparator c \<longleftrightarrow> c = CHR ''/''"

fun Ext_scan :: "string \<Rightarrow> nat \<Rightarrow> string" where
  "Ext_scan path 0 = []"
| "Ext_scan path (Suc i) =
     (if IsPathSeparator (path ! i) then []
      else if path ! i = CHR ''.'' then drop i path
      else Ext_scan path i)"

definition filepath_Ext :: "string \<Rightarrow> string" where
  "filepath_Ext path = Ext_scan path (length path)"

text \<open>
  \<open>strings.ToLower\<close> on bytes: the ASCII letters \<open>A\<close> to \<open>Z\<close> become \<open>a\<close> to \<open>z\<close>, every
  other byte stays. Go also lowers letters outside ASCII; the only ones whose lower case
  is an ASCII letter are U+0130 (to \<open>i\<close>) and U+212A (to \<open>k\<close>), and neither letter occurs
  in an extension of the allow-list, so membership in it is the same.
\<close>

definition lower_byte :: "char \<Rightarrow> char" where
  "lower_byte c =
     (let n = (of_char c :: nat) in if 65 \<le> n \<and> n \<le> 90 then char_of (n + 32) else c)"

definition strings_ToLower :: "string \<Rightarrow> string" where
  "strings_ToLower s = map lower_byte s"

definition codeExtensions :: "string \<rightharpoonup> bool" where
  "codeExtensions =
     [''.go'' \<mapsto> True, ''.py'' \<mapsto> True, ''.js'' \<mapsto> True, ''.ts'' \<mapsto> True,
      ''.java'' \<mapsto> True, ''.cpp'' \<mapsto> True, ''.c'' \<mapsto> True, ''.h'' \<mapsto> True,
      ''.hpp'' \<mapsto> True, ''.rs'' \<mapsto> True]"

text \<open>Indexing a Go map of booleans: a missing key reads as \<open>false\<close>.\<close>

definition isCodeFile :: "string \<Rightarrow> bool" where
  "isCodeFile path =
     (let ext = strings_ToLower (filepath_Ext path)
      in case codeExtensions ext of None \<Rightarrow> False | Some b \<Rightarrow> b)"

text \<open>The allow-list of the specification.\<close>

definition allow_list :: "string set" where
  "allow_list = {''.go'', ''.py'', ''.js'', ''.ts'', ''.java'', ''.cpp'', ''.c'', ''.h'',
                 ''.hpp'', ''.rs''}"

section \<open>Errors, values and the world outside the package\<close>

text \<open>
  Every \<open>fmt.Errorf\<close> of the package is a constructor that wraps the error it formats
  with \<open>%v\<close>; \<open>Foreign\<close> is an error that comes from outside the package (the operating
  system, the HTTP client, the JSON decoder, the ChromaDB client).
\<close>

datatype error =
    Foreign string
  | ReadFileError string error
  | AddChunkError error
  | NoTextsError
  | RequestError error
  | StatusError int
  | DecodeError error
  | EmbeddingsError error
  | ChromaAddError error
  | QueryEmbeddingError error
  | ChromaQueryError error
  | QueryStoreError error

text \<open>A run-time panic of Go: an index out of range, with the index and the length.\<close>

datatype panic = IndexOutOfRange nat nat

datatype 'a outcome = Returned 'a | Failed error | Panicked panic

text \<open>
  A \<open>float32\<close> is its 32 bits: the package only copies embeddings. A value of type
  \<open>interface{}\<close> in a metadata map is a string or an integer; a Go map is a partial
  function, the \<open>nil\<close> map the empty one.
\<close>

type_synonym float32 = "32 word"

datatype interface = StringValue string | IntValue int

type_synonym metadata = "string \<rightharpoonup> interface"

record EmbeddingData =
  Embedding :: "float32 list"
  Index :: int
  Object :: string

record EmbeddingUsage =
  PromptTokens :: int
  TotalTokens :: int

record EmbeddingResponse =
  Data :: "EmbeddingData list"
  Model :: string
  Usage :: EmbeddingUsage

record EmbeddingRequest =
  Input :: "string list"
  RequestModel :: string

record EmbeddingGenerator =
  apiKey :: string
  model :: string

text \<open>
  The HTTP request that \<open>GenerateEmbeddings\<close> builds, and what \<open>client.Do\<close> gives back:
  the status code, and the body as the JSON decoder reads it into an
  \<open>EmbeddingResponse\<close>, or the decoder's error.
\<close>

record http_request =
  Method :: string
  URL :: string
  ContentType :: string
  Authorization :: string
  RequestBody :: EmbeddingRequest

record http_response =
  StatusCode :: int
  Body :: "error + EmbeddingResponse"

record AddConfig =
  Ids :: "string list"
  Embeddings :: "float32 list list"
  Documents :: "string list"
  Metadatas :: "metadata list"

record QueryConfig =
  QueryEmbeddings :: "float32 list"
  NResults :: int
  Include :: "string list"

record QueryResults =
  results_Documents :: "string list"
  results_Metadatas :: "metadata list"

text \<open>
  One call of the function that \<open>filepath.WalkDir\<close> is given: the path, whether the
  entry is a directory, and the error of the walk itself, if any.
\<close>

record walk_entry =
  entry_path :: string
  entry_IsDir :: bool
  entry_err :: "error option"

text \<open>
  The world outside the package, with a state \<open>'w\<close> that every call may change: the
  SHA-256 digest, \<open>os.ReadFile\<close>, the entries \<open>filepath.WalkDir\<close> visits under a root (in
  its lexical order), \<open>client.Do\<close> of \<open>net/http\<close>, and \<open>Add\<close> and \<open>Query\<close> of the ChromaDB
  collection.
\<close>

record 'w world =
  Sum256 :: "string \<Rightarrow> string"
  os_ReadFile :: "'w \<Rightarrow> string \<Rightarrow> (error + string) \<times> 'w"
  fs_walk :: "'w \<Rightarrow> string \<Rightarrow> walk_entry list"
  client_Do :: "'w \<Rightarrow> http_request \<Rightarrow> (error + http_response) \<times> 'w"
  collection_Add :: "'w \<Rightarrow> AddConfig \<Rightarrow> error option \<times> 'w"
  collection_Query :: "'w \<Rightarrow> QueryConfig \<Rightarrow> (error + QueryResults) \<times> 'w"

record ChromaStore =
  collectionName :: string
  embedder :: EmbeddingGenerator

record CodeIndexer =
  store :: ChromaStore
  rootPath :: string

record SearchResult =
  Content :: string
  Metadata :: metadata

section \<open>The embedding generator: \<open>GenerateEmbeddings\<close>\<close>

definition embedding_request :: "EmbeddingGenerator \<Rightarrow> string list \<Rightarrow> http_request" where
  "embedding_request g texts =
     \<lparr>Method = ''POST'', URL = ''https://api.openai.com/v1/embeddings'',
      ContentType = ''application/json'', Authorization = ''Bearer '' @ apiKey g,
      RequestBody = \<lparr>Input = texts, RequestModel = model g\<rparr>\<rparr>"

text \<open>
  The loop of lines 233 to 236: \<open>embeddings[i] = data.Embedding\<close> for the entries of the
  response, in their order. The slice has the length of \<open>Data\<close>, so no write is out of
  range; the field \<open>Index\<close> of an entry is not read.
\<close>

fun copy_embeddings :: "nat \<Rightarrow> EmbeddingData list \<Rightarrow> float32 list list \<Rightarrow> float32 list list" where
  "copy_embeddings i [] embeddings = embeddings"
| "copy_embeddings i (data # rest) embeddings =
     copy_embeddings (Suc i) rest (embeddings[i := Embedding data])"

text \<open>
  \<open>json.Marshal\<close> of a struct of strings and \<open>http.NewRequestWithContext\<close> with a
  constant method and URL do not fail; their error branches are left out.
\<close>

definition GenerateEmbeddings ::
  "'w world \<Rightarrow> EmbeddingGenerator \<Rightarrow> 'w \<Rightarrow> string list \<Rightarrow> (error + float32 list list) \<times> 'w" where
  "GenerateEmbeddings W g w texts =
     (if length texts = 0 then (Inl NoTextsError, w)
      else case client_Do W w (embedding_request g texts) of
             (Inl err, w') \<Rightarrow> (Inl (RequestError err), w')
           | (Inr resp, w') \<Rightarrow>
               if StatusCode resp \<noteq> 200 then (Inl (StatusError (StatusCode resp)), w')
               else (case Body resp of
                       Inl err \<Rightarrow> (Inl (DecodeError err), w')
                     | Inr embeddingResp \<Rightarrow>
                         (Inr (copy_embeddings 0 (Data embeddingResp)
                                 (replicate (length (Data embeddingResp)) [])), w')))"

section \<open>The vector store: \<open>AddDocuments\<close> and \<open>QuerySimilar\<close>\<close>

definition AddDocuments ::
  "'w world \<Rightarrow> ChromaStore \<Rightarrow> 'w \<Rightarrow> string list \<Rightarrow> metadata list \<Rightarrow> string list \<Rightarrow>
   error option \<times> 'w" where
  "AddDocuments W s w documents metadata ids =
     (case GenerateEmbeddings W (embedder s) w documents of
        (Inl err, w1) \<Rightarrow> (Some (EmbeddingsError err), w1)
      | (Inr embeddings, w1) \<Rightarrow>
          (case collection_Add W w1 \<lparr>Ids = ids, Embeddings = embeddings,
                                     Documents = documents, Metadatas = metadata\<rparr> of
             (Some err, w2) \<Rightarrow> (Some (ChromaAddError err), w2)
           | (None, w2) \<Rightarrow> (None, w2)))"

text \<open>\<open>queryEmbeddings[0]\<close> panics when the generator returned no embedding.\<close>

definition QuerySimilar ::
  "'w world \<Rightarrow> ChromaStore \<Rightarrow> 'w \<Rightarrow> string \<Rightarrow> int \<Rightarrow>
   (string list \<times> metadata list) outcome \<times> 'w" where
  "QuerySimilar W s w query limit =
     (case GenerateEmbeddings W (embedder s) w [query] of
        (Inl err, w1) \<Rightarrow> (Failed (QueryEmbeddingError err), w1)
      | (Inr queryEmbeddings, w1) \<Rightarrow>
          (case queryEmbeddings of
             [] \<Rightarrow> (Panicked (IndexOutOfRange 0 0), w1)
           | first # _ \<Rightarrow>
               (case collection_Query W w1 \<lparr>QueryEmbeddings = first, NResults = limit,
                                            Include = [''documents'', ''metadatas'']\<rparr> of
                  (Inl err, w2) \<Rightarrow> (Failed (ChromaQueryError err), w2)
                | (Inr results, w2) \<Rightarrow>
                    (Returned (results_Documents results, results_Metadatas results), w2))))"

section \<open>The indexer: \<open>ProcessFile\<close>, \<open>IndexDirectory\<close> and \<open>Search\<close>\<close>

definition strings_TrimPrefix :: "string \<Rightarrow> string \<Rightarrow> string" where
  "strings_TrimPrefix s prefix =
     (if take (length prefix) s = prefix then drop (length prefix) s else s)"

definition chunk_metadata :: "string \<Rightarrow> nat \<Rightarrow> nat \<Rightarrow> metadata" where
  "chunk_metadata filePath idx totalChunks =
     [''file_path'' \<mapsto> StringValue filePath,
      ''chunk_index'' \<mapsto> IntValue (int idx),
      ''total_chunks'' \<mapsto> IntValue (int totalChunks),
      ''language'' \<mapsto> StringValue (strings_TrimPrefix (filepath_Ext filePath) ''.'')]"

text \<open>
  The loop of \<open>ProcessFile\<close> over the chunks from index \<open>idx\<close> on: one \<open>AddDocuments\<close> for
  each chunk, and a return at the first one that fails.
\<close>

fun add_chunks ::
  "'w world \<Rightarrow> CodeIndexer \<Rightarrow> string \<Rightarrow> nat \<Rightarrow> nat \<Rightarrow> string list \<Rightarrow> 'w \<Rightarrow> error option \<times> 'w" where
  "add_chunks W i filePath totalChunks idx [] w = (None, w)"
| "add_chunks W i filePath totalChunks idx (chunk # rest) w =
     (let metadata = chunk_metadata filePath idx totalChunks;
          id = generateID (Sum256 W) filePath chunk
      in case AddDocuments W (store i) w [chunk] [metadata] [id] of
           (Some err, w') \<Rightarrow> (Some (AddChunkError err), w')
         | (None, w') \<Rightarrow> add_chunks W i filePath totalChunks (Suc idx) rest w')"

definition ProcessFile :: "'w world \<Rightarrow> CodeIndexer \<Rightarrow> 'w \<Rightarrow> string \<Rightarrow> error option \<times> 'w" where
  "ProcessFile W i w filePath =
     (case os_ReadFile W w filePath of
        (Inl err, w0) \<Rightarrow> (Some (ReadFileError filePath err), w0)
      | (Inr content, w0) \<Rightarrow>
          (let chunks = splitIntoChunks content 1000
           in add_chunks W i filePath (length chunks) 0 chunks w0))"

text \<open>
  \<open>filepath.WalkDir\<close> calls the function on the entries in turn and stops at the first
  call that returns an error. (The function of \<open>IndexDirectory\<close> never returns
  \<open>SkipDir\<close> or \<open>SkipAll\<close>: its errors are those of the walk and of \<open>ProcessFile\<close>.)
\<close>

fun WalkDir ::
  "('w \<Rightarrow> walk_entry \<Rightarrow> error option \<times> 'w) \<Rightarrow> walk_entry list \<Rightarrow> 'w \<Rightarrow> error option \<times> 'w" where
  "WalkDir fn [] w = (None, w)"
| "WalkDir fn (e # es) w =
     (case fn w e of
        (Some err, w') \<Rightarrow> (Some err, w')
      | (None, w') \<Rightarrow> WalkDir fn es w')"

definition index_entry :: "'w world \<Rightarrow> CodeIndexer \<Rightarrow> 'w \<Rightarrow> walk_entry \<Rightarrow> error option \<times> 'w" where
  "index_entry W i w e =
     (case entry_err e of
        Some err \<Rightarrow> (Some err, w)
      | None \<Rightarrow>
          if entry_IsDir e \<or> \<not> isCodeFile (entry_path e) then (None, w)
          else ProcessFile W i w (entry_path e))"

definition IndexDirectory :: "'w world \<Rightarrow> CodeIndexer \<Rightarrow> 'w \<Rightarrow> error option \<times> 'w" where
  "IndexDirectory W i w = WalkDir (index_entry W i) (fs_walk W w (rootPath i)) w"

text \<open>
  The loop of \<open>Search\<close> (lines 134 to 139): \<open>results[idx]\<close> is in range, the slice having
  the length of \<open>docs\<close>; \<open>metadata[idx]\<close> panics when \<open>idx\<close> is not below the length of
  \<open>metadata\<close>.
\<close>

fun search_loop ::
  "nat \<Rightarrow> string list \<Rightarrow> metadata list \<Rightarrow> SearchResult list \<Rightarrow> SearchResult list outcome" where
  "search_loop idx [] metadata results = Returned results"
| "search_loop idx (doc # docs) metadata results =
     (if idx < length metadata
      then search_loop (Suc idx) docs metadata
             (results[idx := \<lparr>Content = doc, Metadata = metadata ! idx\<rparr>])
      else Panicked (IndexOutOfRange idx (length metadata)))"

definition Search ::
  "'w world \<Rightarrow> CodeIndexer \<Rightarrow> 'w \<Rightarrow> string \<Rightarrow> int \<Rightarrow> SearchResult list outcome \<times> 'w" where
  "Search W i w query limit =
     (case QuerySimilar W (store i) w query limit of
        (Failed err, w') \<Rightarrow> (Failed (QueryStoreError err), w')
      | (Panicked p, w') \<Rightarrow> (Panicked p, w')
      | (Returned (docs, metadata), w') \<Rightarrow>
          (search_loop 0 docs metadata
             (replicate (length docs) \<lparr>Content = [], Metadata = Map.empty\<rparr>), w'))"

text \<open>A search result, as the loop of \<open>Search\<close> builds it.\<close>

definition make_result :: "string \<Rightarrow> metadata \<Rightarrow> SearchResult" where
  "make_result doc m = \<lparr>Content = doc, Metadata = m\<rparr>"

definition NewEmbeddingGenerator :: "string \<Rightarrow> EmbeddingGenerator" where
  "NewEmbeddingGenerator key = \<lparr>apiKey = key, model = ''text-embedding-ada-002''\<rparr>"

definition NewCodeIndexer :: "ChromaStore \<Rightarrow> string \<Rightarrow> CodeIndexer" where
  "NewCodeIndexer s root = \<lparr>store = s, rootPath = root\<rparr>"

section \<open>Worlds for concrete runs\<close>

text \<open>
  A provider's answer with status 200 and the given entries; the entries of a provider
  that answers each text in turn (here with the text's length as its embedding).
\<close>

definition provider_response :: "EmbeddingData list \<Rightarrow> http_response" where
  "provider_response ds =
     \<lparr>StatusCode = 200,
      Body = Inr \<lparr>Data = ds, Model = ''text-embedding-ada-002'',
                  Usage = \<lparr>PromptTokens = 0, TotalTokens = 0\<rparr>\<rparr>\<rparr>"

definition faithful_entries :: "string list \<Rightarrow> EmbeddingData list" where
  "faithful_entries texts =
     map (\<lambda>(k, t). \<lparr>Embedding = [of_nat (length t)], Index = int k, Object = ''embedding''\<rparr>)
       (enumerate 0 texts)"

definition no_entries :: "string list \<Rightarrow> EmbeddingData list" where
  "no_entries texts = []"

text \<open>
  A world without state: the provider answers with the entries \<open>entries\<close> computes from
  the texts of the request, the collection accepts every \<open>Add\<close> and answers every
  \<open>Query\<close> with \<open>results\<close>; there are no files.
\<close>

definition canned_world :: "(string list \<Rightarrow> EmbeddingData list) \<Rightarrow> QueryResults \<Rightarrow> unit world" where
  "canned_world entries results =
     \<lparr>Sum256 = toy_Sum,
      os_ReadFile = (\<lambda>w p. (Inl (Foreign ''no such file''), w)),
      fs_walk = (\<lambda>w root. []),
      client_Do = (\<lambda>w req. (Inr (provider_response (entries (Input (RequestBody req)))), w)),
      collection_Add = (\<lambda>w cfg. (None, w)),
      collection_Query = (\<lambda>w q. (Inr results, w))\<rparr>"

definition demo_store :: ChromaStore where
  "demo_store = \<lparr>collectionName = ''code-snippets'', embedder = NewEmbeddingGenerator ''sk-test''\<rparr>"

definition demo_indexer :: CodeIndexer where
  "demo_indexer = NewCodeIndexer demo_store ''.''"

definition no_results :: QueryResults where
  "no_results = \<lparr>results_Documents = [], results_Metadatas = []\<rparr>"

definition meta_a :: metadata where
  "meta_a = [''file_path'' \<mapsto> StringValue ''a.go'']"

definition meta_b :: metadata where
  "meta_b = [''file_path'' \<mapsto> StringValue ''b.go'']"

definition parallel_results :: QueryResults where
  "parallel_results = \<lparr>results_Documents = [''func a'', ''func b''],
                        results_Metadatas = [meta_a, meta_b]\<rparr>"

definition short_metadata_results :: QueryResults where
  "short_metadata_results = \<lparr>results_Documents = [''func a'', ''func b''],
                              results_Metadatas = [meta_a]\<rparr>"

text \<open>
  A world whose state is the list of the configurations its collection holds. The
  collection holds one document at most: \<open>Add\<close> fails once it is not empty. The
  directory \<open>.\<close> holds \<open>README\<close>, \<open>a.go\<close> (two lines of 600 bytes, so two chunks) and
  \<open>b.go\<close>.
\<close>

definition line_a :: string where
  "line_a = replicate 600 (CHR ''a'')"

definition line_b :: string where
  "line_b = replicate 600 (CHR ''b'')"

definition two_long_lines :: string where
  "two_long_lines = line_a @ newline # line_b"

definition demo_file :: "bool \<Rightarrow> string \<Rightarrow> walk_entry" where
  "demo_file dir p = \<lparr>entry_path = p, entry_IsDir = dir, entry_err = None\<rparr>"

definition demo_world :: "AddConfig list world" where
  "demo_world =
     \<lparr>Sum256 = toy_Sum,
      os_ReadFile = (\<lambda>w p. (if p = ''./a.go'' then Inr two_long_lines
                             else if p = ''./b.go'' then Inr ''package b''
                             else Inl (Foreign ''no such file''), w)),
      fs_walk = (\<lambda>w root. [demo_file True ''.'', demo_file False ''./README'',
                             demo_file False ''./a.go'', demo_file False ''./b.go'']),
      client_Do = (\<lambda>w req. (Inr (provider_response (faithful_entries (Input (RequestBody req)))), w)),
      collection_Add = (\<lambda>w cfg. if w = [] then (None, [cfg])
                                  else (Some (Foreign ''quota exceeded''), w)),
      collection_Query = (\<lambda>w q. (Inr \<lparr>results_Documents = concat (map Documents w),
                                          results_Metadatas = concat (map Metadatas w)\<rparr>, w))\<rparr>"

text \<open>What the collection of \<open>demo_world\<close> holds once the first chunk of \<open>a.go\<close> is in.\<close>

definition first_chunk_config :: AddConfig where
  "first_chunk_config =
     \<lparr>Ids = [generateID toy_Sum ''./a.go'' (line_a @ [newline])],
      Embeddings = [[601]],
      Documents = [line_a @ [newline]],
      Metadatas = [chunk_metadata ''./a.go'' 0 2]\<rparr>"

section \<open>Properties of the chunker\<close>

lemma split_from_concat:
  "concat (map (\<lambda>l. l @ [sep]) (split_from sep cur s)) = cur @ s @ [sep]"
  by (induction s arbitrary: cur) simp_all

lemma split_from_no_sep:
  "sep \<notin> set cur \<Longrightarrow> l \<in> set (split_from sep cur s) \<Longrightarrow> sep \<notin> set l"
proof (induction s arbitrary: cur)
  case Nil
  then show ?case by simp
next
  case (Cons c cs)
  show ?case
  proof (cases "c = sep")
    case True
    with Cons.prems have "l = cur \<or> l \<in> set (split_from sep [] cs)" by simp
    then show ?thesis using Cons.prems(1) Cons.IH[of "[]"] by auto
  next
    case False
    with Cons.prems have "l \<in> set (split_from sep (cur @ [c]) cs)" by simp
    then show ?thesis using Cons.prems(1) False Cons.IH[of "cur @ [c]"] by auto
  qed
qed

lemma strings_Split_concat:
  "concat (map (\<lambda>l. l @ [sep]) (strings_Split s sep)) = s @ [sep]"
  by (simp add: strings_Split_def split_from_concat)

lemma strings_Split_no_sep: "l \<in> set (strings_Split s sep) \<Longrightarrow> sep \<notin> set l"
  unfolding strings_Split_def by (rule split_from_no_sep[of sep "[]"]) simp_all

lemma lines_from_line:
  "newline \<notin> set l \<Longrightarrow> lines_from cur (l @ newline # rest) = (cur @ l) # lines_from [] rest"
  by (induction l arbitrary: cur) auto

lemma lines_from_append:
  "lines_from cur (s @ newline # t) = lines_from cur (s @ [newline]) @ lines_from [] t"
  by (induction s arbitrary: cur) simp_all

lemma chunk_lines_Nil: "chunk_lines [] = []"
  by (simp add: chunk_lines_def)

lemma chunk_lines_append:
  assumes "terminated s"
  shows "chunk_lines (s @ t) = chunk_lines s @ chunk_lines t"
proof (cases "s = []")
  case True
  then show ?thesis by (simp add: chunk_lines_def)
next
  case False
  with assms have "s = butlast s @ [newline]"
    by (metis terminated_def append_butlast_last_id)
  then obtain p where p: "s = p @ [newline]" ..
  show ?thesis
    using lines_from_append[of "[]" p t] by (simp add: chunk_lines_def p)
qed

lemma chunk_lines_line:
  "newline \<notin> set l \<Longrightarrow> chunk_lines (l @ [newline]) = [l]"
  using lines_from_line[of l "[]" "[]"] by (simp add: chunk_lines_def)

lemma chunk_lines_snoc_line:
  "terminated s \<Longrightarrow> newline \<notin> set l \<Longrightarrow> chunk_lines (s @ l @ [newline]) = chunk_lines s @ [l]"
  by (simp add: chunk_lines_append chunk_lines_line)

lemma lines_from_size:
  "s \<noteq> [] \<Longrightarrow> last s = newline \<Longrightarrow>
   (\<Sum>l\<leftarrow>lines_from cur s. int (length l) + 1) = int (length cur) + int (length s)"
proof (induction s arbitrary: cur)
  case Nil
  then show ?case by simp
next
  case (Cons c cs)
  show ?case
  proof (cases "cs = []")
    case True
    with Cons.prems show ?thesis by simp
  next
    case False
    with Cons.prems have "last cs = newline" by simp
    with False Cons.IH show ?thesis by simp
  qed
qed

lemma accumulated_size_terminated:
  "terminated c \<Longrightarrow> accumulated_size c = int (length c)"
  using lines_from_size[of c "[]"]
  by (cases "c = []") (simp_all add: accumulated_size_def chunk_lines_def terminated_def)

lemma chunker_inv_init: "chunker_inv chunker_init"
  by (simp add: chunker_inv_def chunker_init_def terminated_def)

lemma chunker_inv_add_line: "chunker_inv st \<Longrightarrow> chunker_inv (add_line n st l)"
  by (auto simp: chunker_inv_def add_line_def Let_def terminated_def)

lemma chunker_inv_loop: "chunker_inv st \<Longrightarrow> chunker_inv (chunk_loop n st ls)"
  unfolding chunk_loop_def
  by (induction ls rule: rev_induct) (simp_all add: chunker_inv_add_line)

lemma add_line_concat:
  "concat (chunks (add_line n st l)) @ currentChunk (add_line n st l) =
   concat (chunks st) @ currentChunk st @ l @ [newline]"
  by (simp add: add_line_def Let_def)

lemma chunk_loop_concat:
  "concat (chunks (chunk_loop n st ls)) @ currentChunk (chunk_loop n st ls) =
   concat (chunks st) @ currentChunk st @ concat (map (\<lambda>l. l @ [newline]) ls)"
  unfolding chunk_loop_def
  by (induction ls rule: rev_induct) (simp_all add: add_line_concat)

lemma finish_concat: "concat (finish st) = concat (chunks st) @ currentChunk st"
  by (simp add: finish_def)

lemma splitIntoChunks_concat: "concat (splitIntoChunks text n) = text @ [newline]"
  by (simp add: splitIntoChunks_def finish_concat chunk_loop_concat strings_Split_concat
      chunker_init_def)

lemma finish_chunks_terminated:
  "chunker_inv st \<Longrightarrow> c \<in> set (finish st) \<Longrightarrow> c \<noteq> [] \<and> last c = newline"
  by (auto simp: finish_def chunker_inv_def terminated_def split: if_splits)

lemma splitIntoChunks_terminated:
  "c \<in> set (splitIntoChunks text n) \<Longrightarrow> c \<noteq> [] \<and> last c = newline"
  unfolding splitIntoChunks_def
  by (rule finish_chunks_terminated[OF chunker_inv_loop[OF chunker_inv_init]])

lemma add_line_lines:
  "chunker_inv st \<Longrightarrow> newline \<notin> set l \<Longrightarrow>
   lines_held (add_line n st l) = lines_held st @ [l]"
  by (simp add: lines_held_def add_line_def Let_def chunker_inv_def chunk_lines_snoc_line
      chunk_lines_line chunk_lines_Nil)

lemma chunk_loop_lines:
  "chunker_inv st \<Longrightarrow> \<forall>l\<in>set ls. newline \<notin> set l \<Longrightarrow>
   lines_held (chunk_loop n st ls) = lines_held st @ ls"
proof (induction ls rule: rev_induct)
  case Nil
  then show ?case by (simp add: chunk_loop_def)
next
  case (snoc l ls)
  then have "lines_held (chunk_loop n st ls) = lines_held st @ ls" by simp
  moreover have "chunker_inv (chunk_loop n st ls)"
    using snoc.prems(1) by (rule chunker_inv_loop)
  moreover have "newline \<notin> set l" using snoc.prems(2) by simp
  ultimately show ?case
    using add_line_lines[of "chunk_loop n st ls" l n] by (simp add: chunk_loop_def)
qed

lemma finish_lines: "concat (map chunk_lines (finish st)) = lines_held st"
  by (simp add: finish_def lines_held_def chunk_lines_Nil)

lemma split_from_lines_from:
  "s \<noteq> [] \<Longrightarrow> last s = newline \<Longrightarrow> split_from newline cur s = lines_from cur s @ [[]]"
proof (induction s arbitrary: cur)
  case Nil
  then show ?case by simp
next
  case (Cons c cs)
  show ?case
  proof (cases "cs = []")
    case True
    with Cons.prems show ?thesis by simp
  next
    case False
    with Cons.prems have "last cs = newline" by simp
    with False Cons.IH show ?thesis by simp
  qed
qed

lemma splitIntoChunks_Split_chunk:
  "c \<in> set (splitIntoChunks text n) \<Longrightarrow> strings_Split c newline = chunk_lines c @ [[]]"
  using splitIntoChunks_terminated[of c _ n] split_from_lines_from[of c "[]"]
  by (simp add: strings_Split_def chunk_lines_def)

lemma splitIntoChunks_lines:
  "concat (map chunk_lines (splitIntoChunks text chunkSize)) = strings_Split text newline"
proof -
  have "lines_held (chunk_loop chunkSize chunker_init (strings_Split text newline)) =
        lines_held chunker_init @ strings_Split text newline"
    by (rule chunk_loop_lines[OF chunker_inv_init]) (simp add: strings_Split_no_sep)
  then show ?thesis
    by (simp add: splitIntoChunks_def finish_lines lines_held_def chunker_init_def chunk_lines_Nil)
qed

text \<open>
  Claim C1 (chunk coverage). For every input text and every target chunk size (in
  particular every positive one), the lines of the chunks that \<open>splitIntoChunks\<close>
  returns, taken chunk after chunk, are exactly the lines \<open>strings.Split(text, "\n")\<close>
  gives for the text: nothing lost, nothing repeated, nothing out of order. The lines of
  a chunk are what \<open>strings.Split\<close> gives for the chunk, without the empty string that
  follows its last newline.
\<close>

theorem chunk_coverage:
  "concat (map chunk_lines (splitIntoChunks text chunkSize)) = strings_Split text newline \<and>
   map (\<lambda>c. strings_Split c newline) (splitIntoChunks text chunkSize) =
     map (\<lambda>c. chunk_lines c @ [[]]) (splitIntoChunks text chunkSize)"
  by (simp add: splitIntoChunks_lines splitIntoChunks_Split_chunk)

lemma bound_inv_init: "bound_inv n chunker_init"
  by (simp add: bound_inv_def chunker_init_def)

lemma bound_inv_add_line:
  assumes "chunker_inv st" and "bound_inv n st" and "newline \<notin> set l"
  shows "bound_inv n (add_line n st l)"
proof (cases "currentSize st + (int (length l) + 1) > n \<and> currentSize st > 0")
  case True
  with assms(1) have "currentChunk st \<noteq> []" by (auto simp: chunker_inv_def)
  with assms(2) have "soft_bounded n (currentChunk st)" by (simp add: bound_inv_def)
  with True assms(2,3) show ?thesis
    by (simp add: bound_inv_def add_line_def Let_def soft_bounded_def chunk_lines_line)
next
  case False
  show ?thesis
  proof (cases "currentSize st > 0")
    case True
    with False have "currentSize st + (int (length l) + 1) \<le> n" by simp
    with assms(1) have "int (length (currentChunk st @ l @ [newline])) \<le> n"
      by (simp add: chunker_inv_def)
    with False assms(2) show ?thesis
      by (simp add: bound_inv_def add_line_def Let_def soft_bounded_def)
  next
    case zero: False
    with assms(1) have "currentChunk st = []" by (simp add: chunker_inv_def)
    with zero assms(2,3) show ?thesis
      by (simp add: bound_inv_def add_line_def Let_def soft_bounded_def chunk_lines_line)
  qed
qed

lemma bound_inv_loop:
  "chunker_inv st \<Longrightarrow> bound_inv n st \<Longrightarrow> \<forall>l\<in>set ls. newline \<notin> set l \<Longrightarrow>
   bound_inv n (chunk_loop n st ls)"
proof (induction ls rule: rev_induct)
  case Nil
  then show ?case by (simp add: chunk_loop_def)
next
  case (snoc l ls)
  then have "bound_inv n (chunk_loop n st ls)" by simp
  moreover have "chunker_inv (chunk_loop n st ls)"
    using snoc.prems(1) by (rule chunker_inv_loop)
  moreover have "newline \<notin> set l" using snoc.prems(3) by simp
  ultimately show ?case
    using bound_inv_add_line[of "chunk_loop n st ls" n l] by (simp add: chunk_loop_def)
qed

lemma finish_soft_bounded:
  "bound_inv n st \<Longrightarrow> c \<in> set (finish st) \<Longrightarrow> soft_bounded n c"
  by (auto simp: finish_def bound_inv_def split: if_splits)

lemma splitIntoChunks_soft_bounded:
  assumes "c \<in> set (splitIntoChunks text n)"
  shows "soft_bounded n c"
proof -
  have "bound_inv n (chunk_loop n chunker_init (strings_Split text newline))"
    by (rule bound_inv_loop[OF chunker_inv_init bound_inv_init])
       (simp add: strings_Split_no_sep)
  then show ?thesis
    using assms unfolding splitIntoChunks_def by (rule finish_soft_bounded)
qed

lemma alone_add_line_new:
  assumes "chunker_inv st" and "n < int (length l) + 1"
  shows "currentChunk (add_line n st l) = l @ [newline]"
proof (cases "currentSize st > 0")
  case True
  with assms(2) show ?thesis by (simp add: add_line_def Let_def)
next
  case False
  with assms(1) have "currentChunk st = []" by (simp add: chunker_inv_def)
  with False show ?thesis by (simp add: add_line_def Let_def)
qed

lemma alone_add_line_keep:
  assumes "chunker_inv st" and "n < int (length l) + 1" and "alone st l"
  shows "alone (add_line n st x) l"
proof (cases "l @ [newline] \<in> set (chunks st)")
  case True
  then show ?thesis by (simp add: alone_def add_line_def Let_def)
next
  case False
  with assms(3) have cur: "currentChunk st = l @ [newline]" by (simp add: alone_def)
  with assms(1) have "currentSize st = int (length l) + 1" by (simp add: chunker_inv_def)
  with assms(2) cur show ?thesis by (simp add: alone_def add_line_def Let_def)
qed

lemma alone_loop:
  "chunker_inv st \<Longrightarrow> n < int (length l) + 1 \<Longrightarrow> l \<in> set ls \<Longrightarrow>
   alone (chunk_loop n st ls) l"
proof (induction ls rule: rev_induct)
  case Nil
  then show ?case by simp
next
  case (snoc x xs)
  have inv: "chunker_inv (chunk_loop n st xs)"
    using snoc.prems(1) by (rule chunker_inv_loop)
  show ?case
  proof (cases "l = x")
    case True
    then show ?thesis
      using alone_add_line_new[OF inv snoc.prems(2)] by (simp add: chunk_loop_def alone_def)
  next
    case False
    with snoc have "alone (chunk_loop n st xs) l" by simp
    then show ?thesis
      using alone_add_line_keep[OF inv snoc.prems(2)] by (simp add: chunk_loop_def)
  qed
qed

lemma finish_alone: "alone st l \<Longrightarrow> l @ [newline] \<in> set (finish st)"
  by (auto simp: alone_def finish_def)

lemma splitIntoChunks_oversized_line:
  assumes "l \<in> set (strings_Split text newline)" and "n < int (length l) + 1"
  shows "l @ [newline] \<in> set (splitIntoChunks text n)"
proof -
  have "alone (chunk_loop n chunker_init (strings_Split text newline)) l"
    using chunker_inv_init assms(2) assms(1) by (rule alone_loop)
  then show ?thesis
    unfolding splitIntoChunks_def by (rule finish_alone)
qed

lemma splitIntoChunks_accumulated_size:
  "c \<in> set (splitIntoChunks text n) \<Longrightarrow> accumulated_size c = int (length c)"
  using splitIntoChunks_terminated[of c _ n]
  by (simp add: accumulated_size_terminated terminated_def)

lemma single_line_size:
  "length (chunk_lines c) = 1 \<Longrightarrow> l \<in> set (chunk_lines c) \<Longrightarrow>
   accumulated_size c = int (length l) + 1"
  by (cases "chunk_lines c") (simp_all add: accumulated_size_def)

text \<open>
  Claim C4 (chunk size soft bound). For a positive target size, every chunk that
  \<open>splitIntoChunks\<close> returns is a single line or has an accumulated size of at most the
  target size; so its accumulated size exceeds the target size by no more than the length
  of any one of its lines, and no chunk at all is an exception to that. A line longer
  than the target size is a chunk of its own, whole, with its newline.
\<close>

theorem chunk_size_soft_bound:
  assumes "0 < chunkSize"
  shows "(\<forall>c\<in>set (splitIntoChunks text chunkSize).
            (length (chunk_lines c) = 1 \<or> accumulated_size c \<le> chunkSize) \<and>
            (\<forall>l\<in>set (chunk_lines c). accumulated_size c \<le> chunkSize + int (length l))) \<and>
         (\<forall>l\<in>set (strings_Split text newline).
            chunkSize < int (length l) \<longrightarrow> l @ [newline] \<in> set (splitIntoChunks text chunkSize))"
proof (intro conjI ballI impI)
  fix c assume c: "c \<in> set (splitIntoChunks text chunkSize)"
  have sz: "accumulated_size c = int (length c)"
    using c by (rule splitIntoChunks_accumulated_size)
  have sb: "soft_bounded chunkSize c"
    using c by (rule splitIntoChunks_soft_bounded)
  show one: "length (chunk_lines c) = 1 \<or> accumulated_size c \<le> chunkSize"
    using sb sz by (simp add: soft_bounded_def)
  fix l assume l: "l \<in> set (chunk_lines c)"
  show "accumulated_size c \<le> chunkSize + int (length l)"
  proof (cases "length (chunk_lines c) = 1")
    case True
    then show ?thesis using single_line_size[OF True l] assms by simp
  next
    case False
    with one show ?thesis by simp
  qed
next
  fix l assume "l \<in> set (strings_Split text newline)" and "chunkSize < int (length l)"
  then show "l @ [newline] \<in> set (splitIntoChunks text chunkSize)"
    by (simp add: splitIntoChunks_oversized_line)
qed

text \<open>The bound at a text of three lines, the first longer than the target size 4.\<close>

theorem chunk_size_soft_bound_witness:
  "(0::int) < 4 \<and>
   splitIntoChunks ''abcdefgh\<newline>cd\<newline>'' 4 = [''abcdefgh\<newline>'', ''cd\<newline>\<newline>''] \<and>
   chunk_lines ''cd\<newline>\<newline>'' = [''cd'', []] \<and>
   accumulated_size ''cd\<newline>\<newline>'' \<le> 4 \<and>
   chunk_lines ''abcdefgh\<newline>'' = [''abcdefgh''] \<and>
   accumulated_size ''abcdefgh\<newline>'' \<le> 4 + int (length ''abcdefgh'') \<and>
   ''abcdefgh'' \<in> set (strings_Split ''abcdefgh\<newline>cd\<newline>'' newline) \<and>
   4 < int (length ''abcdefgh'') \<and>
   ''abcdefgh\<newline>'' \<in> set (splitIntoChunks ''abcdefgh\<newline>cd\<newline>'' 4)"
proof -
  have chunks: "splitIntoChunks ''abcdefgh\<newline>cd\<newline>'' 4 = [''abcdefgh\<newline>'', ''cd\<newline>\<newline>'']"
    by code_simp
  have lines: "strings_Split ''abcdefgh\<newline>cd\<newline>'' newline = [''abcdefgh'', ''cd'', []]"
    by code_simp
  have l1: "chunk_lines ''cd\<newline>\<newline>'' = [''cd'', []]"
    by code_simp
  have l2: "chunk_lines ''abcdefgh\<newline>'' = [''abcdefgh'']"
    by code_simp
  show ?thesis
    using chunk_size_soft_bound[of 4 "''abcdefgh\<newline>cd\<newline>''"]
    by (simp add: chunks lines l1 l2)
qed

text \<open>
  Claim C2 (chunking the empty string). \<open>strings.Split("", "\n")\<close> is the one-element
  slice holding the empty string, so the loop runs once and writes a newline into the
  buffer: the guard of line 85 finds the buffer non-empty, and the result is one chunk
  holding a single newline, for every target size. The code does not return zero chunks.
\<close>

theorem splitIntoChunks_empty_text: "splitIntoChunks [] chunkSize = [[newline]]"
  by (simp add: splitIntoChunks_def strings_Split_def chunk_loop_def chunker_init_def
      add_line_def finish_def)

text \<open>
  Claim C9 (chunker normalization). For every input text and every target size (in
  particular every positive one), every chunk that \<open>splitIntoChunks\<close> returns is
  non-empty and ends with a newline, and the chunks concatenated are the input text
  followed by exactly one more newline.
\<close>

theorem chunker_normalization:
  "(\<forall>c\<in>set (splitIntoChunks text chunkSize). c \<noteq> [] \<and> last c = newline) \<and>
   concat (splitIntoChunks text chunkSize) = text @ [newline]"
  by (simp add: splitIntoChunks_terminated splitIntoChunks_concat)

text \<open>The same at a text of two lines without a final newline, target size 3.\<close>

theorem chunker_normalization_witness:
  "splitIntoChunks ''ab\<newline>cd'' 3 = [''ab\<newline>'', ''cd\<newline>''] \<and>
   ''cd\<newline>'' \<in> set (splitIntoChunks ''ab\<newline>cd'' 3) \<and>
   ''cd\<newline>'' \<noteq> [] \<and> last ''cd\<newline>'' = newline \<and>
   concat (splitIntoChunks ''ab\<newline>cd'' 3) = ''ab\<newline>cd'' @ [newline]"
proof -
  have chunks: "splitIntoChunks ''ab\<newline>cd'' 3 = [''ab\<newline>'', ''cd\<newline>'']"
    by code_simp
  show ?thesis
    using chunker_normalization[of "''ab\<newline>cd''" 3] by (simp add: chunks)
qed

section \<open>Properties of the content hasher\<close>

lemma hextable_distinct: "distinct hextable" and hextable_length: "length hextable = 16"
  by (simp_all add: hextable_def)

lemma of_char_less_256: "(of_char c :: nat) < 256"
  by (cases c) simp

lemma of_char_div_16: "(of_char c :: nat) div 16 < 16"
  using of_char_less_256[of c] by arith

lemma hex_byte_inj:
  assumes "hex_byte a = hex_byte b"
  shows "a = b"
proof -
  have da: "(of_char a :: nat) div 16 < 16" and db: "(of_char b :: nat) div 16 < 16"
    by (rule of_char_div_16)+
  have ma: "(of_char a :: nat) mod 16 < 16" and mb: "(of_char b :: nat) mod 16 < 16"
    by simp_all
  from assms have "hextable ! ((of_char a :: nat) div 16) = hextable ! ((of_char b :: nat) div 16)"
    and "hextable ! ((of_char a :: nat) mod 16) = hextable ! ((of_char b :: nat) mod 16)"
    by (simp_all add: hex_byte_def)
  then have "(of_char a :: nat) div 16 = of_char b div 16"
    and "(of_char a :: nat) mod 16 = of_char b mod 16"
    using da db ma mb hextable_distinct
    by (simp_all add: nth_eq_iff_index_eq hextable_length)
  then have "(of_char a :: nat) = of_char b"
    by (metis div_mult_mod_eq)
  then show ?thesis by simp
qed

lemma hex_byte_length: "length (hex_byte v) = 2"
  by (simp add: hex_byte_def)

lemma hex_EncodeToString_inj:
  "hex_EncodeToString xs = hex_EncodeToString ys \<Longrightarrow> xs = ys"
proof (induction xs arbitrary: ys)
  case Nil
  then show ?case
    by (cases ys) (simp_all add: hex_EncodeToString_def hex_byte_def)
next
  case (Cons x xs)
  show ?case
  proof (cases ys)
    case Nil
    with Cons.prems show ?thesis by (simp add: hex_EncodeToString_def hex_byte_def)
  next
    case (Cons y ys')
    with Cons.prems have "hex_byte x @ hex_EncodeToString xs = hex_byte y @ hex_EncodeToString ys'"
      by (simp add: hex_EncodeToString_def)
    then have "hex_byte x = hex_byte y" and "hex_EncodeToString xs = hex_EncodeToString ys'"
      by (simp_all add: hex_byte_length)
    then show ?thesis using Cons Cons.IH hex_byte_inj by simp
  qed
qed

lemma hex_EncodeToString_length: "length (hex_EncodeToString src) = 2 * length src"
  by (induction src) (simp_all add: hex_EncodeToString_def hex_byte_length)

lemma hex_byte_digits: "set (hex_byte v) \<subseteq> set hextable"
proof -
  have "(of_char v :: nat) div 16 < length hextable"
    using of_char_div_16[of v] by (simp add: hextable_length)
  moreover have "(of_char v :: nat) mod 16 < length hextable"
    by (simp add: hextable_length)
  ultimately show ?thesis
    by (simp add: hex_byte_def)
qed

lemma hex_EncodeToString_digits: "set (hex_EncodeToString src) \<subseteq> set hextable"
  using hex_byte_digits by (auto simp: hex_EncodeToString_def)

text \<open>
  Claim C3 (content-addressed ID). The ID is the hexadecimal encoding of the digest of
  the bytes of the path followed directly by those of the content; with a digest of
  32 bytes it has 64 characters, all of them digits or lower-case letters \<open>a\<close> to \<open>f\<close>.
  The same path and content give the same ID. Changing the path alone, or the content
  alone, changes the ID unless the two concatenations collide under the digest.
\<close>

theorem generateID_content_addressed:
  assumes "\<And>x. length (sha256_Sum x) = sha256_Size"
  shows "generateID sha256_Sum p c = hex_EncodeToString (sha256_Sum (p @ c)) \<and>
         length (generateID sha256_Sum p c) = 64 \<and>
         set (generateID sha256_Sum p c) \<subseteq> set ''0123456789abcdef'' \<and>
         (p1 = p2 \<and> c1 = c2 \<longrightarrow> generateID sha256_Sum p1 c1 = generateID sha256_Sum p2 c2) \<and>
         (p1 \<noteq> p2 \<and> \<not> collision sha256_Sum (p1 @ c) (p2 @ c) \<longrightarrow>
            generateID sha256_Sum p1 c \<noteq> generateID sha256_Sum p2 c) \<and>
         (c1 \<noteq> c2 \<and> \<not> collision sha256_Sum (p @ c1) (p @ c2) \<longrightarrow>
            generateID sha256_Sum p c1 \<noteq> generateID sha256_Sum p c2)"
proof (intro conjI impI)
  show "generateID sha256_Sum p c = hex_EncodeToString (sha256_Sum (p @ c))"
    by (simp add: generateID_def)
  show "length (generateID sha256_Sum p c) = 64"
    using assms[of "p @ c"] by (simp add: generateID_def hex_EncodeToString_length sha256_Size_def)
  show "set (generateID sha256_Sum p c) \<subseteq> set ''0123456789abcdef''"
    using hex_EncodeToString_digits[of "sha256_Sum (p @ c)"]
    by (simp only: generateID_def hextable_def)
next
  assume "p1 = p2 \<and> c1 = c2"
  then show "generateID sha256_Sum p1 c1 = generateID sha256_Sum p2 c2" by simp
next
  assume a: "p1 \<noteq> p2 \<and> \<not> collision sha256_Sum (p1 @ c) (p2 @ c)"
  then have "sha256_Sum (p1 @ c) \<noteq> sha256_Sum (p2 @ c)" by (auto simp: collision_def)
  then show "generateID sha256_Sum p1 c \<noteq> generateID sha256_Sum p2 c"
    using hex_EncodeToString_inj by (auto simp: generateID_def)
next
  assume a: "c1 \<noteq> c2 \<and> \<not> collision sha256_Sum (p @ c1) (p @ c2)"
  then have "sha256_Sum (p @ c1) \<noteq> sha256_Sum (p @ c2)" by (auto simp: collision_def)
  then show "generateID sha256_Sum p c1 \<noteq> generateID sha256_Sum p c2"
    using hex_EncodeToString_inj by (auto simp: generateID_def)
qed

text \<open>The claim at two paths and two contents, with the stand-in digest.\<close>

lemma toy_Sum_length: "length (toy_Sum x) = sha256_Size"
  by (simp add: toy_Sum_def sha256_Size_def)

theorem generateID_content_addressed_witness:
  "generateID toy_Sum ''a.go'' ''x'' = hex_EncodeToString (toy_Sum (''a.go'' @ ''x'')) \<and>
   length (generateID toy_Sum ''a.go'' ''x'') = 64 \<and>
   ''a.go'' \<noteq> ''b.go'' \<and> \<not> collision toy_Sum (''a.go'' @ ''x'') (''b.go'' @ ''x'') \<and>
   generateID toy_Sum ''a.go'' ''x'' \<noteq> generateID toy_Sum ''b.go'' ''x'' \<and>
   ''x'' \<noteq> ''y'' \<and> \<not> collision toy_Sum (''a.go'' @ ''x'') (''a.go'' @ ''y'') \<and>
   generateID toy_Sum ''a.go'' ''x'' \<noteq> generateID toy_Sum ''a.go'' ''y''"
proof -
  have n1: "\<not> collision toy_Sum (''a.go'' @ ''x'') (''b.go'' @ ''x'')"
    by (simp add: collision_def toy_Sum_def)
  have n2: "\<not> collision toy_Sum (''a.go'' @ ''x'') (''a.go'' @ ''y'')"
    by (simp add: collision_def toy_Sum_def)
  have d1: "''a.go'' \<noteq> ''b.go''" and d2: "''x'' \<noteq> ''y''"
    by simp_all
  show ?thesis
    using generateID_content_addressed[of toy_Sum "''a.go''" "''x''" "''a.go''" "''b.go''" "''x''" "''y''", OF toy_Sum_length]
      n1 n2 d1 d2
    by blast
qed

text \<open>
  The claim changes one component at a time. Without a separator, moving bytes from the
  end of the path to the start of the content leaves the ID as it is, for every digest.
\<close>

lemma generateID_no_separator:
  "generateID sha256_Sum ''ab'' ''c'' = generateID sha256_Sum ''a'' ''bc''"
  by (simp add: generateID_def)

section \<open>Properties of the file filter\<close>

text \<open>The model of \<open>filepath.Ext\<close> returns the suffix that starts at the last dot.\<close>

lemma Ext_scan_suffix:
  assumes "CHR ''.'' \<notin> set e" and "CHR ''/'' \<notin> set e" and "k \<le> length e"
  shows "Ext_scan (stem @ CHR ''.'' # e) (Suc (length stem + k)) = CHR ''.'' # e"
  using assms(3)
proof (induction k)
  case 0
  then show ?case by (simp add: IsPathSeparator_def nth_append)
next
  case (Suc k)
  then have k: "k < length e" by simp
  then have "e ! k \<in> set e" by simp
  with assms have "e ! k \<noteq> CHR ''.''" "e ! k \<noteq> CHR ''/''" by auto
  moreover have "(stem @ CHR ''.'' # e) ! (Suc (length stem + k)) = e ! k"
    by (simp add: nth_append)
  ultimately show ?case using Suc by (simp add: IsPathSeparator_def)
qed

lemma filepath_Ext_suffix:
  "CHR ''.'' \<notin> set e \<Longrightarrow> CHR ''/'' \<notin> set e \<Longrightarrow>
   filepath_Ext (stem @ CHR ''.'' # e) = CHR ''.'' # e"
  using Ext_scan_suffix[of e "length e" stem] by (simp add: filepath_Ext_def)

lemma isCodeFile_iff: "isCodeFile path \<longleftrightarrow> strings_ToLower (filepath_Ext path) \<in> allow_list"
  by (simp add: isCodeFile_def codeExtensions_def allow_list_def Let_def)

lemma isCodeFile_Main_GO: "isCodeFile ''Main.GO''"
  by code_simp

lemma isCodeFile_notes_txt: "\<not> isCodeFile ''notes.txt''"
  by code_simp

lemma isCodeFile_README: "\<not> isCodeFile ''README''"
  by code_simp

text \<open>
  Claim C7 (file filter). For every path, \<open>isCodeFile\<close> holds exactly when the lower-case
  form of the path's extension is one of the ten extensions of the allow-list;
  \<open>Main.GO\<close> is eligible, \<open>notes.txt\<close> is not, and \<open>README\<close>, without extension, is not.
\<close>

theorem isCodeFile_allow_list:
  "(isCodeFile path \<longleftrightarrow> strings_ToLower (filepath_Ext path) \<in> allow_list) \<and>
   isCodeFile ''Main.GO'' \<and> \<not> isCodeFile ''notes.txt'' \<and> \<not> isCodeFile ''README''"
  using isCodeFile_iff isCodeFile_Main_GO isCodeFile_notes_txt isCodeFile_README by simp

section \<open>Properties of the embedding generator, the search and the indexer\<close>

lemma copy_embeddings_eq:
  "length embeddings = i + length ds \<Longrightarrow>
   copy_embeddings i ds embeddings = take i embeddings @ map Embedding ds"
proof (induction ds arbitrary: i embeddings)
  case Nil
  then show ?case by simp
next
  case (Cons d ds)
  then have i: "i < length embeddings" by simp
  have "copy_embeddings (Suc i) ds (embeddings[i := Embedding d]) =
        take (Suc i) (embeddings[i := Embedding d]) @ map Embedding ds"
    using Cons.prems by (intro Cons.IH) simp
  then show ?case using i by (simp add: take_Suc_conv_app_nth)
qed

lemma copy_embeddings_map:
  "copy_embeddings 0 ds (replicate (length ds) []) = map Embedding ds"
  by (simp add: copy_embeddings_eq)

lemma GenerateEmbeddings_success_iff:
  "GenerateEmbeddings W g w texts = (Inr embeddings, w') \<longleftrightarrow>
     texts \<noteq> [] \<and>
     (\<exists>resp r. client_Do W w (embedding_request g texts) = (Inr resp, w') \<and>
        StatusCode resp = 200 \<and> Body resp = Inr r \<and> embeddings = map Embedding (Data r))"
  by (auto simp: GenerateEmbeddings_def copy_embeddings_map split: prod.splits sum.splits)

text \<open>
  Claim C6 (embedding batch alignment), amended. When \<open>GenerateEmbeddings\<close> succeeds, the
  input was not empty, the provider answered with status 200 and a body that decodes,
  and the embeddings returned are those of the entries of the response, in the order of
  the response. So their number is the number of entries of the response: it is the
  number of input texts exactly when the provider sent one entry for each text.
\<close>

theorem GenerateEmbeddings_follows_response:
  assumes "GenerateEmbeddings W g w texts = (Inr embeddings, w')"
  shows "\<exists>resp r. texts \<noteq> [] \<and>
           client_Do W w (embedding_request g texts) = (Inr resp, w') \<and>
           StatusCode resp = 200 \<and> Body resp = Inr r \<and>
           embeddings = map Embedding (Data r) \<and>
           length embeddings = length (Data r) \<and>
           (\<forall>k<length (Data r). embeddings ! k = Embedding (Data r ! k)) \<and>
           (length embeddings = length texts \<longleftrightarrow> length (Data r) = length texts)"
proof -
  from assms obtain resp r where
    "texts \<noteq> []" "client_Do W w (embedding_request g texts) = (Inr resp, w')"
    "StatusCode resp = 200" "Body resp = Inr r" "embeddings = map Embedding (Data r)"
    unfolding GenerateEmbeddings_success_iff by blast
  then show ?thesis by (intro exI[of _ resp] exI[of _ r]) simp
qed

lemma search_loop_in_range:
  "idx + length docs \<le> length metadata \<Longrightarrow> length results = idx + length docs \<Longrightarrow>
   search_loop idx docs metadata results =
     Returned (take idx results @ map2 make_result docs (drop idx metadata))"
proof (induction docs arbitrary: idx results)
  case Nil
  then show ?case by simp
next
  case (Cons doc docs)
  then have i: "idx < length metadata" and r: "idx < length results" by simp_all
  let ?v = "\<lparr>Content = doc, Metadata = metadata ! idx\<rparr>"
  have "search_loop (Suc idx) docs metadata (results[idx := ?v]) =
        Returned (take (Suc idx) (results[idx := ?v]) @
                  map2 make_result docs (drop (Suc idx) metadata))"
    using Cons.prems by (intro Cons.IH) simp_all
  moreover have "drop idx metadata = metadata ! idx # drop (Suc idx) metadata"
    using i by (simp add: Cons_nth_drop_Suc)
  ultimately show ?case
    using i r by (simp add: take_Suc_conv_app_nth make_result_def)
qed

lemma search_loop_out_of_range:
  "length metadata < idx + length docs \<Longrightarrow> idx \<le> length metadata \<Longrightarrow>
   search_loop idx docs metadata results =
     Panicked (IndexOutOfRange (length metadata) (length metadata))"
proof (induction docs arbitrary: idx results)
  case Nil
  then show ?case by simp
next
  case (Cons doc docs)
  show ?case
  proof (cases "idx < length metadata")
    case True
    with Cons.prems show ?thesis by (simp add: Cons.IH)
  next
    case False
    with Cons.prems have "idx = length metadata" by simp
    then show ?thesis by simp
  qed
qed

lemma Search_Returned:
  "QuerySimilar W (store i) w query limit = (Returned (docs, metadata), w') \<Longrightarrow>
   Search W i w query limit =
     (search_loop 0 docs metadata (replicate (length docs) \<lparr>Content = [], Metadata = Map.empty\<rparr>), w')"
  by (simp add: Search_def)

text \<open>
  Claim C8 (search result mapping). When the query of the store succeeds with as many
  metadata entries as documents, \<open>Search\<close> returns one result for each document, in the
  order of the store, the \<open>k\<close>-th result pairing the \<open>k\<close>-th document with the \<open>k\<close>-th
  metadata entry.
\<close>

theorem Search_result_mapping:
  assumes "QuerySimilar W (store i) w query limit = (Returned (docs, metadata), w')"
    and "length metadata = length docs"
  shows "Search W i w query limit = (Returned (map2 make_result docs metadata), w') \<and>
         length (map2 make_result docs metadata) = length docs \<and>
         (\<forall>k<length docs.
            map2 make_result docs metadata ! k = \<lparr>Content = docs ! k, Metadata = metadata ! k\<rparr>)"
  using assms search_loop_in_range[of 0 docs metadata "replicate (length docs) \<lparr>Content = [], Metadata = Map.empty\<rparr>"]
  by (simp add: Search_Returned make_result_def)

text \<open>
  Claim C10 (indexing safety of \<open>Search\<close>). When the query of the store succeeds: if
  there are at least as many metadata entries as documents, every \<open>metadata[idx]\<close> is in
  range and \<open>Search\<close> returns its results; if there are fewer, \<open>Search\<close> panics at the
  first index that has no metadata entry.
\<close>

theorem Search_indexing_safety:
  assumes "QuerySimilar W (store i) w query limit = (Returned (docs, metadata), w')"
  shows "(length docs \<le> length metadata \<longrightarrow>
            Search W i w query limit = (Returned (map2 make_result docs metadata), w')) \<and>
         (length metadata < length docs \<longrightarrow>
            Search W i w query limit =
              (Panicked (IndexOutOfRange (length metadata) (length metadata)), w'))"
  using search_loop_in_range[of 0 docs metadata "replicate (length docs) \<lparr>Content = [], Metadata = Map.empty\<rparr>"]
    search_loop_out_of_range[of metadata 0 docs "replicate (length docs) \<lparr>Content = [], Metadata = Map.empty\<rparr>"]
  by (simp add: Search_Returned[OF assms])

lemma add_chunks_append:
  "add_chunks W i filePath n idx (xs @ ys) w =
     (case add_chunks W i filePath n idx xs w of
        (Some err, w') \<Rightarrow> (Some err, w')
      | (None, w') \<Rightarrow> add_chunks W i filePath n (idx + length xs) ys w')"
  by (induction xs arbitrary: idx w) (simp_all add: Let_def split: prod.splits option.splits)

lemma WalkDir_append:
  "WalkDir fn (xs @ ys) w =
     (case WalkDir fn xs w of
        (Some err, w') \<Rightarrow> (Some err, w')
      | (None, w') \<Rightarrow> WalkDir fn ys w')"
  by (induction xs arbitrary: w) (simp_all split: prod.splits option.splits)

lemma add_chunks_first_failure:
  assumes "k < length cs"
    and "add_chunks W i filePath n 0 (take k cs) w0 = (None, wk)"
    and "AddDocuments W (store i) wk [cs ! k] [chunk_metadata filePath k n]
           [generateID (Sum256 W) filePath (cs ! k)] = (Some err, w')"
  shows "add_chunks W i filePath n 0 cs w0 = (Some (AddChunkError err), w')"
proof -
  have "cs = take k cs @ cs ! k # drop (Suc k) cs"
    using assms(1) by (simp add: id_take_nth_drop)
  then have "add_chunks W i filePath n 0 cs w0 =
             add_chunks W i filePath n 0 (take k cs @ cs ! k # drop (Suc k) cs) w0"
    by simp
  also have "\<dots> = add_chunks W i filePath n k (cs ! k # drop (Suc k) cs) wk"
    using assms(1,2) by (simp add: add_chunks_append)
  also have "\<dots> = (Some (AddChunkError err), w')"
    using assms(3) by (simp add: Let_def)
  finally show ?thesis .
qed

text \<open>
  Claim C5 (first error aborts, no rollback). If the first \<open>k\<close> chunks of a file are
  written and the write of the next one fails, \<open>ProcessFile\<close> returns that error, wrapped,
  and leaves the world as the failed write left it after the \<open>k\<close> writes: no later chunk
  is written and nothing is undone. If the walk's function returns no error on the
  entries before \<open>e\<close> and an error on \<open>e\<close>, \<open>IndexDirectory\<close> returns that error and
  leaves the world as that call left it: no later entry is visited.
\<close>

theorem first_error_aborts:
  "(os_ReadFile W w filePath = (Inr content, w0) \<and>
    cs = splitIntoChunks content 1000 \<and> k < length cs \<and>
    add_chunks W i filePath (length cs) 0 (take k cs) w0 = (None, wk) \<and>
    AddDocuments W (store i) wk [cs ! k] [chunk_metadata filePath k (length cs)]
      [generateID (Sum256 W) filePath (cs ! k)] = (Some err, w')
    \<longrightarrow> ProcessFile W i w filePath = (Some (AddChunkError err), w')) \<and>
   (fs_walk W w (rootPath i) = before @ e # after \<and>
    WalkDir (index_entry W i) before w = (None, w1) \<and>
    index_entry W i w1 e = (Some err', w2)
    \<longrightarrow> IndexDirectory W i w = (Some err', w2))"
proof (intro conjI impI)
  assume a: "os_ReadFile W w filePath = (Inr content, w0) \<and>
    cs = splitIntoChunks content 1000 \<and> k < length cs \<and>
    add_chunks W i filePath (length cs) 0 (take k cs) w0 = (None, wk) \<and>
    AddDocuments W (store i) wk [cs ! k] [chunk_metadata filePath k (length cs)]
      [generateID (Sum256 W) filePath (cs ! k)] = (Some err, w')"
  then have r: "os_ReadFile W w filePath = (Inr content, w0)"
    and c: "cs = splitIntoChunks content 1000"
    and k: "k < length cs"
    and ok: "add_chunks W i filePath (length cs) 0 (take k cs) w0 = (None, wk)"
    and bad: "AddDocuments W (store i) wk [cs ! k] [chunk_metadata filePath k (length cs)]
      [generateID (Sum256 W) filePath (cs ! k)] = (Some err, w')"
    by blast+
  have "add_chunks W i filePath (length cs) 0 cs w0 = (Some (AddChunkError err), w')"
    using k ok bad by (rule add_chunks_first_failure)
  with r c show "ProcessFile W i w filePath = (Some (AddChunkError err), w')"
    by (simp add: ProcessFile_def Let_def)
next
  assume "fs_walk W w (rootPath i) = before @ e # after \<and>
    WalkDir (index_entry W i) before w = (None, w1) \<and>
    index_entry W i w1 e = (Some err', w2)"
  then show "IndexDirectory W i w = (Some err', w2)"
    by (simp add: IndexDirectory_def WalkDir_append)
qed

subsection \<open>Concrete runs\<close>

text \<open>
  Claim C6 as stated fails: a provider that answers a request for one text with status
  200 and no entry makes \<open>GenerateEmbeddings\<close> succeed with no embedding.
\<close>

theorem GenerateEmbeddings_short_response:
  "GenerateEmbeddings (canned_world no_entries no_results) (NewEmbeddingGenerator ''sk-test'') ()
     [''hello''] = (Inr [], ()) \<and>
   length ([] :: float32 list list) \<noteq> length [''hello'']"
  by (simp add: GenerateEmbeddings_def canned_world_def no_entries_def provider_response_def)

text \<open>With such an answer \<open>QuerySimilar\<close> panics at \<open>queryEmbeddings[0]\<close>.\<close>

lemma QuerySimilar_short_response:
  "QuerySimilar (canned_world no_entries parallel_results) demo_store () ''error handling'' 5 =
     (Panicked (IndexOutOfRange 0 0), ())"
  by (simp add: QuerySimilar_def GenerateEmbeddings_def canned_world_def no_entries_def
      provider_response_def)

text \<open>A provider that sends one entry for each text, in order.\<close>

lemma faithful_two: "faithful_entries [''ab'', ''c''] =
   [\<lparr>Embedding = [2], Index = 0, Object = ''embedding''\<rparr>,
    \<lparr>Embedding = [1], Index = 1, Object = ''embedding''\<rparr>]"
  by (simp add: faithful_entries_def)

theorem GenerateEmbeddings_follows_response_witness:
  "GenerateEmbeddings (canned_world faithful_entries no_results) (NewEmbeddingGenerator ''sk-test'') ()
     [''ab'', ''c''] = (Inr [[2], [1]], ()) \<and>
   (\<exists>resp r. [''ab'', ''c''] \<noteq> [] \<and>
      client_Do (canned_world faithful_entries no_results) ()
        (embedding_request (NewEmbeddingGenerator ''sk-test'') [''ab'', ''c'']) = (Inr resp, ()) \<and>
      StatusCode resp = 200 \<and> Body resp = Inr r \<and>
      [[2], [1]] = map Embedding (Data r) \<and>
      length [[2], [1 :: float32]] = length (Data r) \<and>
      (\<forall>k<length (Data r). [[2], [1]] ! k = Embedding (Data r ! k)) \<and>
      (length [[2], [1 :: float32]] = length [''ab'', ''c''] \<longleftrightarrow>
       length (Data r) = length [''ab'', ''c'']))"
proof -
  have run: "GenerateEmbeddings (canned_world faithful_entries no_results)
               (NewEmbeddingGenerator ''sk-test'') () [''ab'', ''c''] = (Inr [[2], [1]], ())"
    by (simp add: GenerateEmbeddings_def canned_world_def faithful_two provider_response_def
        embedding_request_def)
  show ?thesis
    using run GenerateEmbeddings_follows_response[OF run] by (intro conjI)
qed

text \<open>
  Two store answers: two documents with two metadata entries, and two documents with
  one metadata entry.
\<close>

lemma query_parallel:
  "QuerySimilar (canned_world faithful_entries parallel_results) (store demo_indexer) ()
     ''error handling'' 5 = (Returned ([''func a'', ''func b''], [meta_a, meta_b]), ())"
  by (simp add: QuerySimilar_def GenerateEmbeddings_def canned_world_def faithful_entries_def
      provider_response_def parallel_results_def embedding_request_def)

lemma query_short_metadata:
  "QuerySimilar (canned_world faithful_entries short_metadata_results) (store demo_indexer) ()
     ''error handling'' 5 = (Returned ([''func a'', ''func b''], [meta_a]), ())"
  by (simp add: QuerySimilar_def GenerateEmbeddings_def canned_world_def faithful_entries_def
      provider_response_def short_metadata_results_def embedding_request_def)

theorem Search_result_mapping_witness:
  "QuerySimilar (canned_world faithful_entries parallel_results) (store demo_indexer) ()
     ''error handling'' 5 = (Returned ([''func a'', ''func b''], [meta_a, meta_b]), ()) \<and>
   length [meta_a, meta_b] = length [''func a'', ''func b''] \<and>
   Search (canned_world faithful_entries parallel_results) demo_indexer () ''error handling'' 5 =
     (Returned [\<lparr>Content = ''func a'', Metadata = meta_a\<rparr>,
                \<lparr>Content = ''func b'', Metadata = meta_b\<rparr>], ())"
  using Search_result_mapping[OF query_parallel] query_parallel
  by (simp add: make_result_def)

theorem Search_indexing_safety_witness:
  "length [''func a'', ''func b''] \<le> length [meta_a, meta_b] \<and>
   Search (canned_world faithful_entries parallel_results) demo_indexer () ''error handling'' 5 =
     (Returned [\<lparr>Content = ''func a'', Metadata = meta_a\<rparr>,
                \<lparr>Content = ''func b'', Metadata = meta_b\<rparr>], ()) \<and>
   length [meta_a] < length [''func a'', ''func b''] \<and>
   Search (canned_world faithful_entries short_metadata_results) demo_indexer ()
     ''error handling'' 5 = (Panicked (IndexOutOfRange 1 1), ())"
  using Search_indexing_safety[OF query_parallel] Search_indexing_safety[OF query_short_metadata]
  by (simp add: make_result_def)

subsection \<open>A run that fails at the second chunk of a file\<close>

text \<open>
  In \<open>demo_world\<close> the file \<open>a.go\<close> has two lines of 600 bytes: two chunks at the target
  size 1000. The collection takes the first chunk and refuses the second.
\<close>

lemma split_from_plain: "sep \<notin> set l \<Longrightarrow> split_from sep cur l = [cur @ l]"
  by (induction l arbitrary: cur) auto

lemma split_from_line:
  "sep \<notin> set l \<Longrightarrow> split_from sep cur (l @ sep # rest) = (cur @ l) # split_from sep [] rest"
  by (induction l arbitrary: cur) auto

lemma two_long_lines_Split: "strings_Split two_long_lines newline = [line_a, line_b]"
  by (simp add: strings_Split_def two_long_lines_def split_from_line split_from_plain
      line_a_def line_b_def)

lemma two_long_lines_chunks:
  "splitIntoChunks two_long_lines 1000 = [line_a @ [newline], line_b @ [newline]]"
  by (simp add: splitIntoChunks_def two_long_lines_Split chunk_loop_def chunker_init_def
      add_line_def finish_def line_a_def line_b_def)

lemma demo_GenerateEmbeddings:
  "GenerateEmbeddings demo_world g w [t] = (Inr [[of_nat (length t)]], w)"
  by (simp add: GenerateEmbeddings_def demo_world_def provider_response_def faithful_entries_def
      embedding_request_def)

lemma demo_first_write:
  "add_chunks demo_world demo_indexer ''./a.go'' 2 0 [line_a @ [newline]] [] =
     (None, [first_chunk_config])"
  by (simp add: AddDocuments_def demo_GenerateEmbeddings first_chunk_config_def line_a_def)
     (simp add: demo_world_def)

lemma demo_second_write:
  "AddDocuments demo_world (store demo_indexer) [first_chunk_config] [line_b @ [newline]]
     [chunk_metadata ''./a.go'' 1 2] [generateID (Sum256 demo_world) ''./a.go'' (line_b @ [newline])] =
     (Some (ChromaAddError (Foreign ''quota exceeded'')), [first_chunk_config])"
  by (simp add: AddDocuments_def demo_GenerateEmbeddings) (simp add: demo_world_def)

lemma demo_ReadFile: "os_ReadFile demo_world [] ''./a.go'' = (Inr two_long_lines, [])"
  by (simp add: demo_world_def)

lemma demo_walk:
  "fs_walk demo_world [] (rootPath demo_indexer) =
     [demo_file True ''.'', demo_file False ''./README''] @
     demo_file False ''./a.go'' # [demo_file False ''./b.go'']"
  by (simp add: demo_world_def)

lemma not_code_README: "\<not> isCodeFile ''./README''"
  by code_simp

lemma code_a_go: "isCodeFile ''./a.go''"
  by code_simp

lemma demo_walk_before:
  "WalkDir (index_entry demo_world demo_indexer)
     [demo_file True ''.'', demo_file False ''./README''] [] = (None, [])"
  by (simp add: index_entry_def demo_file_def not_code_README)

text \<open>
  \<open>ProcessFile\<close> on \<open>a.go\<close> returns the wrapped error and the collection still holds the
  first chunk; \<open>IndexDirectory\<close> returns the same error, and \<open>b.go\<close> is never read.
\<close>

theorem first_error_aborts_witness:
  "os_ReadFile demo_world [] ''./a.go'' = (Inr two_long_lines, []) \<and>
   splitIntoChunks two_long_lines 1000 = [line_a @ [newline], line_b @ [newline]] \<and>
   add_chunks demo_world demo_indexer ''./a.go'' 2 0 [line_a @ [newline]] [] =
     (None, [first_chunk_config]) \<and>
   AddDocuments demo_world (store demo_indexer) [first_chunk_config] [line_b @ [newline]]
     [chunk_metadata ''./a.go'' 1 2] [generateID (Sum256 demo_world) ''./a.go'' (line_b @ [newline])] =
     (Some (ChromaAddError (Foreign ''quota exceeded'')), [first_chunk_config]) \<and>
   ProcessFile demo_world demo_indexer [] ''./a.go'' =
     (Some (AddChunkError (ChromaAddError (Foreign ''quota exceeded''))), [first_chunk_config]) \<and>
   Documents first_chunk_config = [line_a @ [newline]] \<and>
   fs_walk demo_world [] (rootPath demo_indexer) =
     [demo_file True ''.'', demo_file False ''./README''] @
     demo_file False ''./a.go'' # [demo_file False ''./b.go''] \<and>
   WalkDir (index_entry demo_world demo_indexer)
     [demo_file True ''.'', demo_file False ''./README''] [] = (None, []) \<and>
   index_entry demo_world demo_indexer [] (demo_file False ''./a.go'') =
     (Some (AddChunkError (ChromaAddError (Foreign ''quota exceeded''))), [first_chunk_config]) \<and>
   IndexDirectory demo_world demo_indexer [] =
     (Some (AddChunkError (ChromaAddError (Foreign ''quota exceeded''))), [first_chunk_config])"
proof -
  let ?cs = "[line_a @ [newline], line_b @ [newline]]"
  let ?err = "ChromaAddError (Foreign ''quota exceeded'')"
  note th = first_error_aborts[of demo_world "[]" "''./a.go''" two_long_lines "[]" ?cs 1
      demo_indexer "[first_chunk_config]" ?err "[first_chunk_config]"
      "[demo_file True ''.'', demo_file False ''./README'']" "demo_file False ''./a.go''"
      "[demo_file False ''./b.go'']" "[]" "AddChunkError ?err" "[first_chunk_config]"]
  have len: "length ?cs = 2" and tk: "take 1 ?cs = [line_a @ [newline]]"
    and nth: "?cs ! 1 = line_b @ [newline]"
    by simp_all
  have h2: "?cs = splitIntoChunks two_long_lines 1000"
    by (rule two_long_lines_chunks[symmetric])
  have hk: "1 < length ?cs"
    by simp
  have h3: "add_chunks demo_world demo_indexer ''./a.go'' (length ?cs) 0 (take 1 ?cs) [] =
      (None, [first_chunk_config])"
    unfolding len tk by (rule demo_first_write)
  have h4: "AddDocuments demo_world (store demo_indexer) [first_chunk_config] [?cs ! 1]
      [chunk_metadata ''./a.go'' 1 (length ?cs)]
      [generateID (Sum256 demo_world) ''./a.go'' (?cs ! 1)] = (Some ?err, [first_chunk_config])"
    unfolding len nth by (rule demo_second_write)
  have pf: "ProcessFile demo_world demo_indexer [] ''./a.go'' =
      (Some (AddChunkError ?err), [first_chunk_config])"
    using th demo_ReadFile h2 hk h3 h4 by blast
  have entry: "index_entry demo_world demo_indexer [] (demo_file False ''./a.go'') =
      (Some (AddChunkError ?err), [first_chunk_config])"
    using pf by (simp add: index_entry_def demo_file_def code_a_go)
  have dir: "IndexDirectory demo_world demo_indexer [] =
      (Some (AddChunkError ?err), [first_chunk_config])"
    using th demo_walk demo_walk_before entry by blast
  have docs: "Documents first_chunk_config = [line_a @ [newline]]"
    by (simp add: first_chunk_config_def)
  show ?thesis
    using demo_ReadFile two_long_lines_chunks demo_first_write demo_second_write pf docs
      demo_walk demo_walk_before entry dir
    by (intro conjI)
qed

end
